theory Spec2Isabelle
  imports Complex_Main "HOL-Library.Sublist"
begin

section \<open>Python strings\<close>

text \<open>
  A Python \<open>str\<close> is a sequence of Unicode code points, and \<open>len\<close>, slicing, \<open>in\<close> and the
  regular expressions of the source all work on code points. A string is therefore a list of
  code points (natural numbers), not a list of bytes. ASCII literals are written through
  \<open>asc\<close>; the Chinese literals of the source are listed by code point further down.
\<close>

type_synonym ustr = "nat list"

definition asc :: "string \<Rightarrow> ustr" where
  "asc s = map of_char s"

text \<open>
  The character classes of Python are tables of the Unicode database, which is not part of the
  repository. On ASCII they are written out; beyond ASCII they are taken as a parameter
  \<open>U\<close>: the decimal value of a code point of category Nd (what \<open>\d\<close> matches and \<open>int\<close>
  and \<open>float\<close> read), \<open>str.isalnum\<close>, and the per-character mappings of \<open>str.upper\<close> and
  \<open>str.lower\<close> (which may give several code points). Every theorem below holds for every such
  table.
\<close>

record unicode =
  uc_decimal :: "nat \<Rightarrow> nat option"
  uc_alnum :: "nat \<Rightarrow> bool"
  uc_upper :: "nat \<Rightarrow> ustr"
  uc_lower :: "nat \<Rightarrow> ustr"

definition ascii_only :: unicode where
  "ascii_only = \<lparr>uc_decimal = (\<lambda>c. None), uc_alnum = (\<lambda>c. False),
     uc_upper = (\<lambda>c. [c]), uc_lower = (\<lambda>c. [c])\<rparr>"

definition digit_value :: "unicode \<Rightarrow> nat \<Rightarrow> nat option" where
  "digit_value U c =
     (if c < 128 then (if 48 \<le> c \<and> c \<le> 57 then Some (c - 48) else None)
      else uc_decimal U c)"

definition is_digit :: "unicode \<Rightarrow> nat \<Rightarrow> bool" where
  "is_digit U c = (case digit_value U c of None \<Rightarrow> False | Some d \<Rightarrow> True)"

definition is_alnum :: "unicode \<Rightarrow> nat \<Rightarrow> bool" where
  "is_alnum U c =
     (if c < 128 then (48 \<le> c \<and> c \<le> 57) \<or> (65 \<le> c \<and> c \<le> 90) \<or> (97 \<le> c \<and> c \<le> 122)
      else uc_alnum U c)"

text \<open>\<open>str.isspace\<close>, which is also the class \<open>\s\<close> of a \<open>str\<close> pattern: the full table.\<close>

definition is_space :: "nat \<Rightarrow> bool" where
  "is_space c =
     ((9 \<le> c \<and> c \<le> 13) \<or> (28 \<le> c \<and> c \<le> 32) \<or> c = 133 \<or> c = 160 \<or> c = 5760
      \<or> (8192 \<le> c \<and> c \<le> 8202) \<or> c = 8232 \<or> c = 8233 \<or> c = 8239 \<or> c = 8287
      \<or> c = 12288)"

definition upper_char :: "unicode \<Rightarrow> nat \<Rightarrow> ustr" where
  "upper_char U c =
     (if c < 128 then [if 97 \<le> c \<and> c \<le> 122 then c - 32 else c] else uc_upper U c)"

definition upper_str :: "unicode \<Rightarrow> ustr \<Rightarrow> ustr" where
  "upper_str U s = concat (map (upper_char U) s)"

definition lower_char :: "unicode \<Rightarrow> nat \<Rightarrow> ustr" where
  "lower_char U c =
     (if c < 128 then [if 65 \<le> c \<and> c \<le> 90 then c + 32 else c] else uc_lower U c)"

definition lower_str :: "unicode \<Rightarrow> ustr \<Rightarrow> ustr" where
  "lower_str U s = concat (map (lower_char U) s)"

text \<open>\<open>s.strip()\<close> removes the whitespace at both ends.\<close>

definition strip :: "ustr \<Rightarrow> ustr" where
  "strip s = rev (dropWhile is_space (rev (dropWhile is_space s)))"

text \<open>\<open>sub in s\<close>: \<open>sub\<close> occurs in \<open>s\<close> as a contiguous run.\<close>

fun contains :: "ustr \<Rightarrow> ustr \<Rightarrow> bool" where
  "contains sub [] = (sub = [])"
| "contains sub (c # cs) = (prefix sub (c # cs) \<or> contains sub cs)"

text \<open>\<open>s.split(sep)\<close> for a separator of one character: never empty, \<open>['']\<close> on \<open>''\<close>.\<close>

fun split_on :: "nat \<Rightarrow> ustr \<Rightarrow> ustr list" where
  "split_on sep [] = [[]]"
| "split_on sep (c # cs) =
     (if c = sep then [] # split_on sep cs
      else (case split_on sep cs of [] \<Rightarrow> [[c]] | w # ws \<Rightarrow> (c # w) # ws))"

text \<open>
  \<open>int(ds)\<close> on a run of decimal digits, and \<open>str(n)\<close> of a non-negative integer. Python's
  integers are unbounded, so the values are \<open>nat\<close>. (The interpreter's optional limit on the
  length of a digit string handed to \<open>int\<close> is a configuration of the run, not of the
  program, and is not modelled.)
\<close>

definition int_of :: "unicode \<Rightarrow> ustr \<Rightarrow> nat" where
  "int_of U ds =
     foldl (\<lambda>acc c. 10 * acc + (case digit_value U c of None \<Rightarrow> 0 | Some d \<Rightarrow> d)) 0 ds"

fun str_nat :: "nat \<Rightarrow> ustr" where
  "str_nat n = (if n < 10 then [48 + n] else str_nat (n div 10) @ [48 + n mod 10])"

declare str_nat.simps [simp del]

section \<open>The salary parser of the ETL stage\<close>

text \<open>
  \<open>re.search(r'(\d+)\s*-\s*(\d+)', s)\<close>. The classes \<open>\d\<close>, \<open>\s\<close> and the hyphen are
  pairwise disjoint, so at a given start the greedy match is the only possible one: the whole
  digit run, the whole whitespace run, the hyphen, the whole whitespace run, the whole digit
  run. \<open>search\<close> takes the leftmost start that matches. The result is the pair of the two
  groups.
\<close>

definition match_range_at :: "unicode \<Rightarrow> ustr \<Rightarrow> (ustr \<times> ustr) option" where
  "match_range_at U s =
     (let g1 = takeWhile (is_digit U) s in
      if g1 = [] then None
      else (case dropWhile is_space (dropWhile (is_digit U) s) of
              [] \<Rightarrow> None
            | c # r \<Rightarrow>
                if c = 45 then
                  (let g2 = takeWhile (is_digit U) (dropWhile is_space r) in
                   if g2 = [] then None else Some (g1, g2))
                else None))"

fun search_range :: "unicode \<Rightarrow> ustr \<Rightarrow> (ustr \<times> ustr) option" where
  "search_range U [] = None"
| "search_range U (c # cs) =
     (case match_range_at U (c # cs) of
        Some m \<Rightarrow> Some m
      | None \<Rightarrow> search_range U cs)"

text \<open>
  \<open>nums = re.findall(r'\d+', s)\<close> is used only through \<open>not nums\<close> and \<open>nums[0]\<close>: the
  first maximal digit run, if there is one.
\<close>

definition first_digits :: "unicode \<Rightarrow> ustr \<Rightarrow> ustr option" where
  "first_digits U s =
     (case dropWhile (\<lambda>c. \<not> is_digit U c) s of
        [] \<Rightarrow> None
      | c # r \<Rightarrow> Some (takeWhile (is_digit U) (c # r)))"

text \<open>
  The result of \<open>_parse_salary\<close>: \<open>None\<close> is the triple \<open>(nan, nan, nan)\<close>, \<open>Some\<close> the
  triple (min, max, average). The source computes with integers and, after the division by
  1000, with floats; the model computes with exact rationals, so float rounding (and the
  overflow of that division on a run of more than 300 digits) is outside the model.
\<close>

type_synonym salary = "(rat \<times> rat \<times> rat) option"

text \<open>Lines 110-119: the unit heuristic of the hyphenated branch.\<close>

definition to_k_unit :: "nat \<Rightarrow> nat \<Rightarrow> rat \<times> rat" where
  "to_k_unit low high =
     (if low > 50 \<or> high > 50 then
        (if low > 1000 then (of_nat low / 1000, of_nat high / 1000)
         else (of_nat low, of_nat high))
      else (of_nat low, of_nat high))"

text \<open>
  Lines 120-126 and, with the same statements, lines 150-159: the safety check, the swap and
  the conversion to currency units.
\<close>

definition safety_guard :: "rat \<Rightarrow> rat \<Rightarrow> salary" where
  "safety_guard low high =
     (if low > 200 \<or> high > 200 then None
      else if low > high then Some (high * 1000, low * 1000, (high + low) * 500)
      else Some (low * 1000, high * 1000, (low + high) * 500))"

text \<open>Lines 132-148: the bounds read from the first digit run, \<open>None\<close> when it is rejected.\<close>

definition fused_split :: "unicode \<Rightarrow> ustr \<Rightarrow> (nat \<times> nat) option" where
  "fused_split U num =
     (let raw_val = int_of U num in
      if raw_val > 200 then
        (let s_val = str_nat raw_val in
         if length s_val = 4 then Some (int_of U (take 2 s_val), int_of U (drop 2 s_val))
         else if length s_val = 3 then Some (int_of U (take 1 s_val), int_of U (drop 1 s_val))
         else None)
      else Some (raw_val, raw_val))"

text \<open>
  Lines 101-148: the bounds, in the working unit (K), that reach a safety check; \<open>None\<close>
  when the token is rejected before. The argument is \<open>str(salary_str)\<close>.
\<close>

definition salary_bounds :: "unicode \<Rightarrow> ustr \<Rightarrow> (rat \<times> rat) option" where
  "salary_bounds U salary_str =
     (let s = strip (upper_str U salary_str) in
      case (if 45 \<in> set s then search_range U s else None) of
        Some (g1, g2) \<Rightarrow> Some (to_k_unit (int_of U g1) (int_of U g2))
      | None \<Rightarrow>
          (case first_digits U s of
             None \<Rightarrow> None
           | Some num \<Rightarrow>
               (case fused_split U num of
                  None \<Rightarrow> None
                | Some (low, high) \<Rightarrow> Some (of_nat low, of_nat high))))"

text \<open>
  \<open>_parse_salary\<close>. The argument is a cell of the salary column: \<open>None\<close> when \<open>pd.isna\<close>
  holds of it, otherwise its text.
\<close>

definition parse_salary :: "unicode \<Rightarrow> ustr option \<Rightarrow> salary" where
  "parse_salary U salary_str =
     (case salary_str of
        None \<Rightarrow> None
      | Some x \<Rightarrow>
          (case salary_bounds U x of
             None \<Rightarrow> None
           | Some (low, high) \<Rightarrow> safety_guard low high))"

text \<open>The salary tokens of the claims are built from runs of ASCII digits.\<close>

definition ascii_digits :: "ustr \<Rightarrow> bool" where
  "ascii_digits d = (d \<noteq> [] \<and> list_all (\<lambda>c. 48 \<le> c \<and> c \<le> 57) d)"

section \<open>The salary cleaner of the spider\<close>

text \<open>
  \<open>re.search(r'\d+-\d+K', s)\<close>, whose only group is the whole match, and
  \<open>re.search(r'^(\d+)K', s)\<close>, which can match at the start of the string only. As above,
  a digit run is never followed by a digit, so the greedy match is the only one.
\<close>

definition match_range_k_at :: "unicode \<Rightarrow> ustr \<Rightarrow> ustr option" where
  "match_range_k_at U s =
     (let g1 = takeWhile (is_digit U) s in
      if g1 = [] then None
      else (case dropWhile (is_digit U) s of
              [] \<Rightarrow> None
            | c # r \<Rightarrow>
                if c = 45 then
                  (let g2 = takeWhile (is_digit U) r in
                   if g2 = [] then None
                   else (case dropWhile (is_digit U) r of
                           [] \<Rightarrow> None
                         | k # r' \<Rightarrow> if k = 75 then Some (g1 @ [45] @ g2 @ [75]) else None))
                else None))"

fun search_range_k :: "unicode \<Rightarrow> ustr \<Rightarrow> ustr option" where
  "search_range_k U [] = None"
| "search_range_k U (c # cs) =
     (case match_range_k_at U (c # cs) of
        Some m \<Rightarrow> Some m
      | None \<Rightarrow> search_range_k U cs)"

definition match_fused :: "unicode \<Rightarrow> ustr \<Rightarrow> ustr option" where
  "match_fused U s =
     (let g = takeWhile (is_digit U) s in
      if g = [] then None
      else (case dropWhile (is_digit U) s of
              [] \<Rightarrow> None
            | k # r \<Rightarrow> if k = 75 then Some g else None))"

text \<open>
  Lines 74-84 of \<open>clean_salary\<close>: the split of a fused run, \<open>None\<close> when the function goes
  on to line 87. The length is that of the matched text, and the parts are returned as text.
\<close>

definition smart_split :: "unicode \<Rightarrow> ustr \<Rightarrow> ustr option" where
  "smart_split U num_str =
     (if int_of U num_str > 100 then
        (if length num_str = 4 then
           (let part1 = take 2 num_str; part2 = drop 2 num_str in
            if int_of U part1 < int_of U part2 then Some (part1 @ [45] @ part2 @ [75]) else None)
         else if length num_str = 3 then
           (let part1 = take 1 num_str; part2 = drop 1 num_str in
            if int_of U part1 < int_of U part2 then Some (part1 @ [45] @ part2 @ [75]) else None)
         else None)
      else None)"

text \<open>
  \<open>clean_salary\<close>: the argument is the OCR result, \<open>None\<close> when there is none; the result
  is the cleaned salary text, \<open>None\<close> for a token that is thrown away.
\<close>

definition clean_salary :: "unicode \<Rightarrow> ustr option \<Rightarrow> ustr option" where
  "clean_salary U raw_str =
     (case raw_str of
        None \<Rightarrow> None
      | Some raw \<Rightarrow>
          if raw = [] then None
          else
            (let s = upper_str U (filter (\<lambda>c. is_alnum U c \<or> c = 45 \<or> c = 46) raw) in
             case search_range_k U s of
               Some m \<Rightarrow> Some m
             | None \<Rightarrow>
                 (case match_fused U s of
                    None \<Rightarrow> None
                  | Some num_str \<Rightarrow>
                      (case smart_split U num_str of
                         Some t \<Rightarrow> Some t
                       | None \<Rightarrow> if int_of U num_str \<le> 200 then Some s else None))))"

section \<open>The location extractor\<close>

text \<open>
  The city names of \<open>target_cities\<close>, by code point: Nanjing (U+5357 U+4EAC), Beijing
  (U+5317 U+4EAC), Shanghai (U+4E0A U+6D77), Guangzhou (U+5E7F U+5DDE), Shenzhen
  (U+6DF1 U+5733), Hangzhou (U+676D U+5DDE), Chengdu (U+6210 U+90FD), Wuhan (U+6B66 U+6C49),
  Xi'an (U+897F U+5B89), Suzhou (U+82CF U+5DDE), Changsha (U+957F U+6C99), Chongqing
  (U+91CD U+5E86), Hefei (U+5408 U+80A5).
\<close>

definition target_cities :: "ustr list" where
  "target_cities =
     [[21335, 20140], [21271, 20140], [19978, 28023], [24191, 24030], [28145, 22323],
      [26477, 24030], [25104, 37117], [27494, 27721], [35199, 23433], [33487, 24030],
      [38271, 27801], [37325, 24198], [21512, 32933]]"

text \<open>
  The words of \<open>company_keywords\<close>: company (U+516C U+53F8), technology (U+79D1 U+6280),
  group (U+96C6 U+56E2), bank (U+94F6 U+884C), software (U+8F6F U+4EF6), service
  (U+670D U+52A1), centre (U+4E2D U+5FC3), university (U+5927 U+5B66), factory (U+5382),
  bureau (U+5C40).
\<close>

definition company_keywords :: "ustr list" where
  "company_keywords =
     [[20844, 21496], [31185, 25216], [38598, 22242], [38134, 34892], [36719, 20214],
      [26381, 21153], [20013, 24515], [22823, 23398], [21378], [23616]]"

text \<open>The sentinel "unknown" (U+672A U+77E5). The separator of the dot rule is U+00B7.\<close>

definition unknown_city :: ustr where
  "unknown_city = [26410, 30693]"

text \<open>Lines 65-69: the dot rule, \<open>Some part1\<close> when it returns.\<close>

definition dot_rule :: "ustr \<Rightarrow> ustr option" where
  "dot_rule line =
     (if 183 \<in> set line then
        (let part1 = (case split_on 183 line of [] \<Rightarrow> [] | p # ps \<Rightarrow> p) in
         if list_ex (\<lambda>city. contains city part1) target_cities then Some part1 else None)
      else None)"

text \<open>
  Lines 65-92, the body of the loop on a stripped, non-empty line: \<open>Some\<close> the value
  returned, \<open>None\<close> when the loop goes on to the next line.
\<close>

definition check_line :: "ustr \<Rightarrow> ustr option" where
  "check_line line =
     (case dot_rule line of
        Some part1 \<Rightarrow> Some part1
      | None \<Rightarrow>
          (case find (\<lambda>city. contains city line) target_cities of
             None \<Rightarrow> None
           | Some matched_city \<Rightarrow>
               (let is_company = list_ex (\<lambda>kw. contains kw line) company_keywords in
                if length line \<le> 3 \<and> matched_city = line then Some matched_city
                else if is_company then None
                else Some matched_city)))"

text \<open>The loop over \<open>reversed(lines)\<close>; the argument is the list already reversed.\<close>

fun scan_lines :: "ustr list \<Rightarrow> ustr" where
  "scan_lines [] = unknown_city"
| "scan_lines (l # ls) =
     (if strip l = [] then scan_lines ls
      else (case check_line (strip l) of
              Some r \<Rightarrow> r
            | None \<Rightarrow> scan_lines ls))"

text \<open>\<open>_extract_city_smart\<close>: the argument is \<open>None\<close> when the cell is not a \<open>str\<close>.\<close>

definition extract_city_smart :: "ustr option \<Rightarrow> ustr" where
  "extract_city_smart raw_text =
     (case raw_text of
        None \<Rightarrow> unknown_city
      | Some t \<Rightarrow> scan_lines (rev (split_on 10 t)))"

section \<open>The experience and degree extractor\<close>

text \<open>
  The phrases: "degree not limited" (U+5B66 U+5386 U+4E0D U+9650), "degree requirement"
  (U+5B66 U+5386 U+8981 U+6C42), "not limited" (U+4E0D U+9650), doctorate (U+535A U+58EB),
  master (U+7855 U+58EB), bachelor (U+672C U+79D1), associate (U+5927 U+4E13), "fresh
  graduate" (U+5E94 U+5C4A), "at school" (U+5728 U+6821); the year sign is U+5E74.
\<close>

definition kw_degree_unlimited :: ustr where "kw_degree_unlimited = [23398, 21382, 19981, 38480]"
definition kw_degree_requirement :: ustr where "kw_degree_requirement = [23398, 21382, 35201, 27714]"
definition kw_unlimited :: ustr where "kw_unlimited = [19981, 38480]"
definition kw_doctorate :: ustr where "kw_doctorate = [21338, 22763]"
definition kw_master :: ustr where "kw_master = [30805, 22763]"
definition kw_bachelor :: ustr where "kw_bachelor = [26412, 31185]"
definition kw_associate :: ustr where "kw_associate = [22823, 19987]"
definition kw_fresh_graduate :: ustr where "kw_fresh_graduate = [24212, 23626]"
definition kw_at_school :: ustr where "kw_at_school = [22312, 26657]"

text \<open>
  \<open>re.search(r'(\d+)-(\d+)<year>', text)\<close> and \<open>re.search(r'(\d+)<year>', text)\<close>, with
  the groups as result.
\<close>

definition match_year_range_at :: "unicode \<Rightarrow> ustr \<Rightarrow> (ustr \<times> ustr) option" where
  "match_year_range_at U s =
     (let g1 = takeWhile (is_digit U) s in
      if g1 = [] then None
      else (case dropWhile (is_digit U) s of
              [] \<Rightarrow> None
            | c # r \<Rightarrow>
                if c = 45 then
                  (let g2 = takeWhile (is_digit U) r in
                   if g2 = [] then None
                   else (case dropWhile (is_digit U) r of
                           [] \<Rightarrow> None
                         | y # r' \<Rightarrow> if y = 24180 then Some (g1, g2) else None))
                else None))"

fun search_year_range :: "unicode \<Rightarrow> ustr \<Rightarrow> (ustr \<times> ustr) option" where
  "search_year_range U [] = None"
| "search_year_range U (c # cs) =
     (case match_year_range_at U (c # cs) of
        Some m \<Rightarrow> Some m
      | None \<Rightarrow> search_year_range U cs)"

definition match_years_at :: "unicode \<Rightarrow> ustr \<Rightarrow> ustr option" where
  "match_years_at U s =
     (let g = takeWhile (is_digit U) s in
      if g = [] then None
      else (case dropWhile (is_digit U) s of
              [] \<Rightarrow> None
            | y # r \<Rightarrow> if y = 24180 then Some g else None))"

fun search_years :: "unicode \<Rightarrow> ustr \<Rightarrow> ustr option" where
  "search_years U [] = None"
| "search_years U (c # cs) =
     (case match_years_at U (c # cs) of
        Some g \<Rightarrow> Some g
      | None \<Rightarrow> search_years U cs)"

text \<open>Lines 166-173: the years of experience (\<open>float\<close> of a digit run, as a rational).\<close>

definition parse_exp :: "unicode \<Rightarrow> ustr \<Rightarrow> rat" where
  "parse_exp U text =
     (case search_year_range U text of
        Some (g1, g2) \<Rightarrow> (of_nat (int_of U g1) + of_nat (int_of U g2)) / 2
      | None \<Rightarrow>
          if contains kw_fresh_graduate text \<or> contains kw_at_school text then 1 / 2
          else (case search_years U text of
                  Some g \<Rightarrow> of_nat (int_of U g)
                | None \<Rightarrow> 0))"

text \<open>
  Lines 175-186: the degree code. The condition of line 176 is \<open>no_degree_phrase\<close>; in
  Python \<open>a or b and c\<close> is \<open>a or (b and c)\<close>.
\<close>

definition no_degree_phrase :: "ustr \<Rightarrow> bool" where
  "no_degree_phrase text =
     (contains kw_degree_unlimited text
      \<or> (contains kw_degree_requirement text \<and> contains kw_unlimited text))"

definition parse_degree :: "ustr \<Rightarrow> nat" where
  "parse_degree text =
     (if no_degree_phrase text then 0
      else if contains kw_doctorate text then 4
      else if contains kw_master text then 3
      else if contains kw_bachelor text then 2
      else if contains kw_associate text then 1
      else 0)"

text \<open>\<open>_parse_exp_degree\<close>: the argument is \<open>None\<close> when the cell is not a \<open>str\<close>.\<close>

definition parse_exp_degree :: "unicode \<Rightarrow> ustr option \<Rightarrow> rat \<times> nat" where
  "parse_exp_degree U text =
     (case text of
        None \<Rightarrow> (0, 0)
      | Some t \<Rightarrow> (parse_exp U t, parse_degree t))"

section \<open>The pipeline and the re-validation of the training stage\<close>

text \<open>
  A data frame is the list of its rows. A raw row has the columns the pipeline reads; a cell
  is \<open>None\<close> when it is missing (NaN). A clean row is a row of the table that \<open>run\<close> writes
  and that \<open>load_and_preprocess\<close> reads back.
\<close>

record raw_row =
  title :: "ustr option"
  salary :: "ustr option"
  raw_text :: "ustr option"

record clean_row =
  source :: raw_row
  city :: ustr
  min_salary :: rat
  max_salary :: rat
  avg_salary :: rat
  exp_years :: rat
  degree_value :: nat
  has_skills :: "nat list"

datatype error = ValueError

text \<open>
  \<open>clean_data\<close>. \<open>zip(*column)\<close> unpacked into three (line 202) or two (line 216) names
  raises \<open>ValueError\<close> on a frame without rows. Line 203 drops the rows without salary, line
  209 keeps the rows inside the band.
\<close>

definition clean_data :: "unicode \<Rightarrow> raw_row list \<Rightarrow> error + clean_row list" where
  "clean_data U df =
     (if df = [] then Inl ValueError
      else
        (let parsed = map (\<lambda>r. (r, extract_city_smart (raw_text r), parse_salary U (salary r))) df;
             valid = List.map_filter
               (\<lambda>(r, c, s). case s of None \<Rightarrow> None | Some (lo, hi, av) \<Rightarrow> Some (r, c, lo, hi, av))
               parsed;
             kept = filter (\<lambda>(r, c, lo, hi, av). av < 50000 \<and> av > 2000) valid
         in if kept = [] then Inl ValueError
            else Inr (map (\<lambda>(r, c, lo, hi, av).
                   \<lparr>source = r, city = c, min_salary = lo, max_salary = hi, avg_salary = av,
                    exp_years = fst (parse_exp_degree U (raw_text r)),
                    degree_value = snd (parse_exp_degree U (raw_text r)),
                    has_skills = []\<rparr>) kept)))"

text \<open>
  \<open>feature_engineering\<close>: one flag per skill of the vocabulary, in its order. The text is
  empty when the title or the raw text is missing (\<open>fillna('')\<close>).
\<close>

definition skills :: "ustr list" where
  "skills = map asc [''Python'', ''SQL'', ''Excel'', ''Tableau'', ''PowerBI'', ''Spark'',
     ''Hadoop'', ''Machine Learning'', ''Java'']"

definition feature_engineering :: "unicode \<Rightarrow> clean_row list \<Rightarrow> clean_row list" where
  "feature_engineering U df =
     map (\<lambda>r.
       (let text_data =
              (case (title (source r), raw_text (source r)) of
                 (Some t, Some x) \<Rightarrow> lower_str U (t @ [32] @ x)
               | _ \<Rightarrow> [])
        in r\<lparr>has_skills :=
              map (\<lambda>skill. if contains (lower_str U skill) text_data then 1 else 0) skills\<rparr>)) df"

text \<open>\<open>run\<close>, up to the table it writes.\<close>

definition run :: "unicode \<Rightarrow> raw_row list \<Rightarrow> error + clean_row list" where
  "run U df =
     (case clean_data U df of
        Inl e \<Rightarrow> Inl e
      | Inr cleaned \<Rightarrow> Inr (feature_engineering U cleaned))"

text \<open>
  \<open>load_and_preprocess\<close> of the training stage, lines 52-72: the rows that go on to the
  feature encoding, or the \<open>ValueError\<close> of a table that is too small.
\<close>

definition load_and_preprocess :: "clean_row list \<Rightarrow> error + clean_row list" where
  "load_and_preprocess df =
     (if length df < 10 then Inl ValueError
      else
        (let df1 = filter (\<lambda>r. degree_value r > 0) df;
             df2 = filter (\<lambda>r. avg_salary r < 50000) df1
         in if length df2 < 10 then Inl ValueError else Inr df2))"

subsection \<open>Example rows\<close>

text \<open>
  A job posting with a given salary text, and a row of the cleaned table with a given average
  salary. The raw text is a city line (Nanjing) followed by a degree line (bachelor).
\<close>

definition job :: "ustr \<Rightarrow> raw_row" where
  "job s = \<lparr>title = Some (asc ''Data Analyst''), salary = Some s,
            raw_text = Some ([21335, 20140, 10, 26412, 31185])\<rparr>"

definition trained :: "rat \<Rightarrow> clean_row" where
  "trained av = \<lparr>source = job (asc ''''), city = [21335, 20140], min_salary = av,
     max_salary = av, avg_salary = av, exp_years = 0, degree_value = 2, has_skills = []\<rparr>"

section \<open>Properties\<close>

subsection \<open>Tokens of ASCII digits\<close>

lemma is_digit_ascii: "48 \<le> c \<Longrightarrow> c \<le> 57 \<Longrightarrow> is_digit U c"
  by (simp add: is_digit_def digit_value_def)

lemma ascii_digits_D:
  assumes "ascii_digits d"
  shows "d \<noteq> []" and "\<And>c. c \<in> set d \<Longrightarrow> 48 \<le> c \<and> c \<le> 57"
    and "\<And>c. c \<in> set d \<Longrightarrow> is_digit U c" and "\<And>c. c \<in> set d \<Longrightarrow> \<not> is_space c"
  using assms by (auto simp: ascii_digits_def list_all_iff is_digit_ascii is_space_def)

lemma not_digit_45 [simp]: "\<not> is_digit U 45" and not_digit_75 [simp]: "\<not> is_digit U 75"
  by (simp_all add: is_digit_def digit_value_def)

lemma not_space_45 [simp]: "\<not> is_space 45" and not_space_75 [simp]: "\<not> is_space 75"
  by (simp_all add: is_space_def)

lemma upper_str_append: "upper_str U (xs @ ys) = upper_str U xs @ upper_str U ys"
  by (simp add: upper_str_def)

lemma upper_str_Cons: "upper_str U (c # cs) = upper_char U c @ upper_str U cs"
  by (simp add: upper_str_def)

lemma upper_str_stable: "list_all (\<lambda>c. c < 97) s \<Longrightarrow> upper_str U s = s"
  by (induction s) (simp_all add: upper_str_def upper_char_def)

lemma upper_ascii_digits: "ascii_digits d \<Longrightarrow> upper_str U d = d"
  by (rule upper_str_stable) (auto simp: ascii_digits_def list_all_iff)

lemma dropWhile_hd: "s \<noteq> [] \<Longrightarrow> \<not> P (hd s) \<Longrightarrow> dropWhile P s = s"
  by (cases s) auto

lemma strip_id:
  assumes "s \<noteq> []" "\<not> is_space (hd s)" "\<not> is_space (last s)"
  shows "strip s = s"
proof -
  have "dropWhile is_space (rev s) = rev s"
    using assms by (intro dropWhile_hd) (simp_all add: hd_rev)
  then show ?thesis
    using assms by (simp add: strip_def dropWhile_hd)
qed

lemma takeWhile_run: "(\<And>c. c \<in> set d \<Longrightarrow> P c) \<Longrightarrow> \<not> P x \<Longrightarrow> takeWhile P (d @ x # r) = d"
  by (simp add: takeWhile_append2)

lemma dropWhile_run: "(\<And>c. c \<in> set d \<Longrightarrow> P c) \<Longrightarrow> \<not> P x \<Longrightarrow> dropWhile P (d @ x # r) = x # r"
  by (simp add: dropWhile_append2)

lemma match_range_at_token:
  assumes "ascii_digits da" "ascii_digits db" "\<not> is_digit U x"
  shows "match_range_at U (da @ 45 # db @ x # r) = Some (da, db)"
proof -
  have a: "takeWhile (is_digit U) (da @ 45 # db @ x # r) = da"
    by (rule takeWhile_run) (simp_all add: ascii_digits_D[OF assms(1)])
  have b: "dropWhile (is_digit U) (da @ 45 # db @ x # r) = 45 # db @ x # r"
    by (rule dropWhile_run) (simp_all add: ascii_digits_D[OF assms(1)])
  obtain c cs where db: "db = c # cs"
    using ascii_digits_D(1)[OF assms(2)] by (cases db) auto
  have c: "dropWhile is_space (db @ x # r) = db @ x # r"
    using ascii_digits_D(4)[OF assms(2), of c] by (simp add: db)
  have d: "takeWhile (is_digit U) (db @ x # r) = db"
    by (rule takeWhile_run) (simp_all add: ascii_digits_D[OF assms(2)] assms(3))
  show ?thesis
    using ascii_digits_D(1)[OF assms(1)] ascii_digits_D(1)[OF assms(2)]
    by (simp add: match_range_at_def a b c d)
qed

lemma search_range_token:
  assumes "ascii_digits da" "ascii_digits db" "\<not> is_digit U x"
  shows "search_range U (da @ 45 # db @ x # r) = Some (da, db)"
proof -
  obtain c cs where "da @ 45 # db @ x # r = c # cs"
    using ascii_digits_D(1)[OF assms(1)] by (cases da) auto
  then show ?thesis
    using match_range_at_token[OF assms, where r = r] by (metis search_range.simps(2) option.simps(5))
qed

lemma salary_bounds_hyphen:
  assumes "ascii_digits da" "ascii_digits db"
  shows "salary_bounds U (da @ asc ''-'' @ db @ asc ''K'') =
         Some (to_k_unit (int_of U da) (int_of U db))"
proof -
  let ?t = "da @ 45 # db @ [75]"
  have u: "upper_str U ?t = ?t"
    by (simp add: upper_str_append upper_str_Cons upper_ascii_digits assms upper_char_def)
      (simp add: upper_str_def)
  obtain c cs where da: "da = c # cs"
    using ascii_digits_D(1)[OF assms(1)] by (cases da) auto
  have "\<not> is_space (hd ?t)"
    using ascii_digits_D(4)[OF assms(1), of c] by (simp add: da)
  then have s: "strip ?t = ?t"
    by (intro strip_id) simp_all
  have m: "search_range U ?t = Some (da, db)"
    using search_range_token[OF assms, where x = 75 and r = "[]"] by simp
  show ?thesis
    by (simp add: salary_bounds_def asc_def u s m)
qed

lemma digit_value_ascii: "d < 10 \<Longrightarrow> digit_value U (48 + d) = Some d"
  by (simp add: digit_value_def)

lemma int_of_1: "x < 10 \<Longrightarrow> int_of U [48 + x] = x"
  by (simp add: int_of_def digit_value_ascii)

lemma int_of_2: "x < 10 \<Longrightarrow> y < 10 \<Longrightarrow> int_of U [48 + x, 48 + y] = 10 * x + y"
  by (simp add: int_of_def digit_value_ascii)

lemma int_of_4:
  "x < 10 \<Longrightarrow> y < 10 \<Longrightarrow> z < 10 \<Longrightarrow> w < 10 \<Longrightarrow>
   int_of U [48 + x, 48 + y, 48 + z, 48 + w] = 1000 * x + 100 * y + 10 * z + w"
  by (simp add: int_of_def digit_value_ascii)

lemma int_of_snoc:
  "int_of U (ds @ [c]) = 10 * int_of U ds + (case digit_value U c of None \<Rightarrow> 0 | Some d \<Rightarrow> d)"
  by (simp add: int_of_def)

lemma ascii_digits_str_nat: "ascii_digits (str_nat n)"
proof (induction n rule: str_nat.induct)
  case (1 n)
  show ?case
  proof (cases "n < 10")
    case True
    then show ?thesis
      by (subst str_nat.simps) (simp add: ascii_digits_def)
  next
    case False
    have "n mod 10 < 10" by simp
    then have "48 + n mod 10 \<le> 57" by linarith
    with 1[OF False] False show ?thesis
      by (subst str_nat.simps) (simp add: ascii_digits_def)
  qed
qed

lemma int_of_str_nat: "int_of U (str_nat n) = n"
proof (induction n rule: str_nat.induct)
  case (1 n)
  show ?case
  proof (cases "n < 10")
    case True
    then show ?thesis
      by (subst str_nat.simps) (simp add: int_of_1)
  next
    case False
    have "digit_value U (48 + n mod 10) = Some (n mod 10)"
      by (rule digit_value_ascii) simp
    with 1[OF False] False show ?thesis
      by (subst str_nat.simps) (simp add: int_of_snoc)
  qed
qed

subsection \<open>Hyphenated tokens\<close>

text \<open>
  Claim C1. A token \<open><a>-<b>K\<close>, written with ASCII digits (leading zeros allowed), with
  \<open>a \<le> b \<le> 200\<close> is parsed to the triple \<open>(a * 1000, b * 1000, (a + b) * 500)\<close>. At
  \<open>15-25K\<close> this is \<open>(15000, 25000, 20000)\<close>. Every integer is the value of such a
  run, its decimal numeral (\<open>ascii_digits_str_nat\<close>, \<open>int_of_str_nat\<close>).
\<close>

theorem parse_salary_hyphenated:
  assumes "ascii_digits da" and "ascii_digits db"
    and "int_of U da = a" and "int_of U db = b" and "a \<le> b" and "b \<le> 200"
  shows "parse_salary U (Some (da @ asc ''-'' @ db @ asc ''K'')) =
         Some (of_nat a * 1000, of_nat b * 1000, of_nat (a + b) * 500)"
  using assms(3-6)
  by (simp add: parse_salary_def salary_bounds_hyphen[OF assms(1,2)] to_k_unit_def safety_guard_def)

theorem parse_salary_hyphenated_witness:
  "parse_salary ascii_only (Some (asc ''15-25K'')) = Some (15000, 25000, 20000)"
proof -
  have 1: "ascii_digits (asc ''15'')" and 2: "ascii_digits (asc ''25'')"
    by (simp_all add: ascii_digits_def asc_def)
  have 3: "int_of ascii_only (asc ''15'') = 15" and 4: "int_of ascii_only (asc ''25'') = 25"
    by (simp_all add: int_of_def digit_value_def asc_def)
  have 5: "(15::nat) \<le> 25" and 6: "(25::nat) \<le> 200"
    by simp_all
  show ?thesis
    using parse_salary_hyphenated[OF 1 2 3 4 5 6] by (simp add: asc_def)
qed

subsection \<open>Fused tokens\<close>

lemma str_nat_nonempty: "str_nat n \<noteq> []"
  by (subst str_nat.simps) simp

lemma str_nat_3:
  assumes "100 \<le> v" "v < 1000"
  shows "str_nat v = [48 + v div 100, 48 + v div 10 mod 10, 48 + v mod 10]"
proof -
  have a: "str_nat v = str_nat (v div 10) @ [48 + v mod 10]"
    using assms by (subst str_nat.simps) simp
  have b: "str_nat (v div 10) = str_nat (v div 100) @ [48 + v div 10 mod 10]"
    using assms by (subst str_nat.simps) (simp add: div_mult2_eq[symmetric])
  have c: "str_nat (v div 100) = [48 + v div 100]"
    using assms by (subst str_nat.simps) simp
  show ?thesis by (simp add: a b c)
qed

lemma str_nat_4:
  assumes "1000 \<le> v" "v < 10000"
  shows "str_nat v =
         [48 + v div 1000, 48 + v div 100 mod 10, 48 + v div 10 mod 10, 48 + v mod 10]"
proof -
  have a: "str_nat v = str_nat (v div 10) @ [48 + v mod 10]"
    using assms by (subst str_nat.simps) simp
  have "100 \<le> v div 10" "v div 10 < 1000"
    using assms by simp_all
  from str_nat_3[OF this] show ?thesis
    by (simp add: a div_mult2_eq[symmetric])
qed

lemma str_nat_long:
  assumes "10000 \<le> v"
  shows "5 \<le> length (str_nat v)"
proof -
  have a: "str_nat v = str_nat (v div 10) @ [48 + v mod 10]"
    using assms by (subst str_nat.simps) simp
  have b: "str_nat (v div 10) = str_nat (v div 100) @ [48 + v div 10 mod 10]"
    using assms by (subst str_nat.simps) (simp add: div_mult2_eq[symmetric])
  have c: "str_nat (v div 100) = str_nat (v div 1000) @ [48 + v div 100 mod 10]"
    using assms by (subst str_nat.simps) (simp add: div_mult2_eq[symmetric])
  have d: "str_nat (v div 1000) = str_nat (v div 10000) @ [48 + v div 1000 mod 10]"
    using assms by (subst str_nat.simps) (simp add: div_mult2_eq[symmetric])
  have "1 \<le> length (str_nat (v div 10000))"
    using str_nat_nonempty[of "v div 10000"] by (cases "str_nat (v div 10000)") simp_all
  then show ?thesis by (simp add: a b c d)
qed

lemma mod_100_digits: "10 * ((v::nat) div 10 mod 10) + v mod 10 = v mod 100"
proof -
  have "v mod 100 = v mod 10 + 10 * (v div 10 mod 10)"
    using mod_mult2_eq[of v 10 10] by simp
  then show ?thesis by simp
qed

lemma div_100_digits: "10 * ((v::nat) div 1000) + v div 100 mod 10 = v div 100"
proof -
  have "v div 1000 = v div 100 div 10"
    by (simp add: div_mult2_eq[symmetric])
  then show ?thesis by simp
qed

lemma fused_split_unfold:
  "fused_split U num =
     (if int_of U num > 200 then
        (if length (str_nat (int_of U num)) = 4 then
           Some (int_of U (take 2 (str_nat (int_of U num))), int_of U (drop 2 (str_nat (int_of U num))))
         else if length (str_nat (int_of U num)) = 3 then
           Some (int_of U (take 1 (str_nat (int_of U num))), int_of U (drop 1 (str_nat (int_of U num))))
         else None)
      else Some (int_of U num, int_of U num))"
  unfolding fused_split_def Let_def ..

lemma fused_split_value:
  "fused_split U num =
     (if int_of U num \<le> 200 then Some (int_of U num, int_of U num)
      else if int_of U num < 10000 then Some (int_of U num div 100, int_of U num mod 100)
      else None)"
proof -
  define v where "v = int_of U num"
  have f: "fused_split U num =
     (if v > 200 then
        (if length (str_nat v) = 4 then
           Some (int_of U (take 2 (str_nat v)), int_of U (drop 2 (str_nat v)))
         else if length (str_nat v) = 3 then
           Some (int_of U (take 1 (str_nat v)), int_of U (drop 1 (str_nat v)))
         else None)
      else Some (v, v))"
    unfolding v_def by (rule fused_split_unfold)
  consider "v \<le> 200" | "200 < v" "v < 1000" | "1000 \<le> v" "v < 10000" | "10000 \<le> v"
    by linarith
  then have "fused_split U num =
     (if v \<le> 200 then Some (v, v) else if v < 10000 then Some (v div 100, v mod 100) else None)"
  proof cases
    case 1
    then show ?thesis by (simp add: f)
  next
    case 2
    then have s: "str_nat v = [48 + v div 100, 48 + v div 10 mod 10, 48 + v mod 10]"
      by (intro str_nat_3) simp_all
    have a: "v div 100 < 10" using 2 by simp
    note b = mod_100_digits[of v]
    have "fused_split U num = Some (v div 100, v mod 100)"
      using 2 by (simp add: f s int_of_1[OF a] int_of_2 b)
    then show ?thesis using 2 by simp
  next
    case 3
    then have s: "str_nat v =
        [48 + v div 1000, 48 + v div 100 mod 10, 48 + v div 10 mod 10, 48 + v mod 10]"
      by (intro str_nat_4) simp_all
    have a: "v div 1000 < 10" using 3 by simp
    note b = div_100_digits[of v]
    note c = mod_100_digits[of v]
    have "fused_split U num = Some (v div 100, v mod 100)"
      using 3 by (simp add: f s int_of_2[OF a] int_of_2 b c)
    then show ?thesis using 3 by simp
  next
    case 4
    from str_nat_long[OF this] have "length (str_nat v) \<noteq> 4" "length (str_nat v) \<noteq> 3"
      by simp_all
    then show ?thesis
      using 4 by (simp add: f)
  qed
  then show ?thesis by (simp add: v_def)
qed

lemma salary_bounds_no_range:
  assumes "s = strip (upper_str U x)" and "45 \<in> set s \<longrightarrow> search_range U s = None"
    and "first_digits U s = Some num"
  shows "salary_bounds U x =
         (case fused_split U num of None \<Rightarrow> None
          | Some (low, high) \<Rightarrow> Some (of_nat low, of_nat high))"
  using assms(2,3) unfolding salary_bounds_def Let_def assms(1)[symmetric] by auto

lemma safety_guard_small:
  assumes "l \<le> 200" "h \<le> 200"
  shows "safety_guard (of_nat l) (of_nat h) =
         Some (of_nat (min l h) * 1000, of_nat (max l h) * 1000, of_nat (l + h) * 500)"
  using assms by (simp add: safety_guard_def min_def max_def add.commute)

lemma parse_salary_no_range:
  assumes "s = strip (upper_str U x)" and "45 \<in> set s \<longrightarrow> search_range U s = None"
    and "first_digits U s = Some num" and "v = int_of U num" and "200 < v"
  shows "parse_salary U (Some x) =
         (if v < 10000 then
            Some (of_nat (min (v div 100) (v mod 100)) * 1000,
                  of_nat (max (v div 100) (v mod 100)) * 1000,
                  of_nat (v div 100 + v mod 100) * 500)
          else None)"
proof (cases "v < 10000")
  case True
  then have "v div 100 \<le> 200" "v mod 100 \<le> 200" by simp_all
  from safety_guard_small[OF this] show ?thesis
    using True assms(5)
    by (simp add: parse_salary_def salary_bounds_no_range[OF assms(1-3)] fused_split_value
        assms(4)[symmetric])
next
  case False
  then show ?thesis
    using assms(5)
    by (simp add: parse_salary_def salary_bounds_no_range[OF assms(1-3)] fused_split_value
        assms(4)[symmetric])
qed

lemma str_nat_halves:
  assumes "200 < v" and "v < 10000"
  shows "\<exists>h1 h2. str_nat v = h1 @ h2 \<and> length h1 = (if v < 1000 then 1 else 2) \<and> length h2 = 2
           \<and> int_of U h1 = v div 100 \<and> int_of U h2 = v mod 100"
proof (cases "v < 1000")
  case True
  with assms have s: "str_nat v = [48 + v div 100] @ [48 + v div 10 mod 10, 48 + v mod 10]"
    by (simp add: str_nat_3)
  have a: "v div 100 < 10" using True by simp
  have "int_of U [48 + v div 100] = v div 100"
    by (rule int_of_1[OF a])
  moreover have "int_of U [48 + v div 10 mod 10, 48 + v mod 10] = v mod 100"
    by (simp add: int_of_2 mod_100_digits)
  ultimately show ?thesis
    using True s by (intro exI[of _ "[48 + v div 100]"]
        exI[of _ "[48 + v div 10 mod 10, 48 + v mod 10]"]) simp
next
  case False
  with assms have s: "str_nat v =
      [48 + v div 1000, 48 + v div 100 mod 10] @ [48 + v div 10 mod 10, 48 + v mod 10]"
    by (simp add: str_nat_4)
  have a: "v div 1000 < 10" using assms(2) by simp
  have "int_of U [48 + v div 1000, 48 + v div 100 mod 10] = v div 100"
    by (simp add: int_of_2[OF a] div_100_digits)
  moreover have "int_of U [48 + v div 10 mod 10, 48 + v mod 10] = v mod 100"
    by (simp add: int_of_2 mod_100_digits)
  ultimately show ?thesis
    using False s by (intro exI[of _ "[48 + v div 1000, 48 + v div 100 mod 10]"]
        exI[of _ "[48 + v div 10 mod 10, 48 + v mod 10]"]) simp
qed

text \<open>
  Claim C2, as amended. Take a token in which the range pattern finds nothing, and let \<open>v\<close> be
  the integer value of its first digit run, with \<open>v > 200\<close>. The split goes by the decimal
  digits of \<open>v\<close> (\<open>str(raw_val)\<close>, so leading zeros of the run do not count): when \<open>v\<close> has
  three or four digits, the last two digits are the second half (\<open>v mod 100\<close>) and the one or
  two digits before them the first half (\<open>v div 100\<close>); the halves are below 100, so the safety
  check passes, and they are returned in increasing order. When \<open>v\<close> has five digits or more
  the token is rejected.
\<close>

theorem parse_salary_fused:
  assumes "s = strip (upper_str U x)" and "45 \<in> set s \<longrightarrow> search_range U s = None"
    and "first_digits U s = Some num" and "v = int_of U num" and "200 < v"
  shows "parse_salary U (Some x) =
           (if v < 10000 then
              Some (of_nat (min (v div 100) (v mod 100)) * 1000,
                    of_nat (max (v div 100) (v mod 100)) * 1000,
                    of_nat (v div 100 + v mod 100) * 500)
            else None)
         \<and> (v < 10000 \<longrightarrow>
              (\<exists>h1 h2. str_nat v = h1 @ h2 \<and> length h1 = (if v < 1000 then 1 else 2)
                 \<and> length h2 = 2 \<and> int_of U h1 = v div 100 \<and> int_of U h2 = v mod 100))"
  using parse_salary_no_range[OF assms] str_nat_halves[OF assms(5)] by blast

lemmas ev = asc_def digit_value_def is_digit_def is_alnum_def is_space_def upper_char_def upper_str_def
  strip_def int_of_def match_range_at_def first_digits_def to_k_unit_def safety_guard_def fused_split_def
  salary_bounds_def parse_salary_def Let_def str_nat.simps

theorem parse_salary_fused_witness:
  "parse_salary ascii_only (Some (asc ''2140K'')) = Some (21000, 40000, 30500)"
proof -
  have 1: "asc ''2140K'' = strip (upper_str ascii_only (asc ''2140K''))"
    by (simp add: asc_def strip_def upper_str_def upper_char_def is_space_def)
  have 2: "45 \<in> set (asc ''2140K'') \<longrightarrow> search_range ascii_only (asc ''2140K'') = None"
    by (simp add: asc_def)
  have 3: "first_digits ascii_only (asc ''2140K'') = Some (asc ''2140'')"
    by (simp add: first_digits_def asc_def is_digit_def digit_value_def)
  have 4: "2140 = int_of ascii_only (asc ''2140'')"
    by (simp add: int_of_def asc_def digit_value_def)
  have 5: "(200::nat) < 2140" by simp
  show ?thesis
    using parse_salary_fused[OF 1 2 3 4 5] by simp
qed

text \<open>
  The claim as stated counts the digits of the run: on \<open>02140K\<close> the run has five digits, and
  the token is not rejected but split as 21 and 40.
\<close>

theorem parse_salary_fused_counterexample:
  "first_digits ascii_only (strip (upper_str ascii_only (asc ''02140K''))) = Some (asc ''02140'')
   \<and> length (asc ''02140'') = 5
   \<and> int_of ascii_only (asc ''02140'') = 2140
   \<and> parse_salary ascii_only (Some (asc ''02140K'')) = Some (21000, 40000, 30500)"
  by (simp add: ev)

lemma split_100:
  assumes "(r::nat) < 100"
  shows "(r + q * 100) div 100 = q" and "(r + q * 100) mod 100 = r"
  using assms by simp_all

lemma token4_stable:
  assumes "x < 10" "y < 10" "z < 10" "w < 10"
  shows "strip (upper_str U [48 + x, 48 + y, 48 + z, 48 + w, 75]) = [48 + x, 48 + y, 48 + z, 48 + w, 75]"
  using assms by (simp add: strip_def upper_str_def upper_char_def is_space_def)

text \<open>
  Claim C3, as amended. For a fused token of four ASCII digits \<open>XYZW\<close> whose value is above
  200 (the parser's test for a fused run; every run with \<open>X \<ge> 1\<close> passes it), the parser
  returns on \<open>XYZWK\<close> what it returns on \<open>XY-ZWK\<close>. The order of the two halves does not
  matter.
\<close>

theorem fused_equals_hyphenated:
  assumes "x < 10" and "y < 10" and "z < 10" and "w < 10"
    and "200 < 1000 * x + 100 * y + 10 * z + w"
  shows "parse_salary U (Some ([48 + x, 48 + y, 48 + z, 48 + w] @ asc ''K'')) =
         parse_salary U (Some ([48 + x, 48 + y] @ asc ''-'' @ [48 + z, 48 + w] @ asc ''K''))"
proof -
  let ?v = "1000 * x + 100 * y + 10 * z + w"
  let ?t = "[48 + x, 48 + y, 48 + z, 48 + w, 75]"
  have 1: "?t = strip (upper_str U ?t)"
    using token4_stable[OF assms(1-4)] by simp
  have 2: "45 \<in> set ?t \<longrightarrow> search_range U ?t = None"
    by simp
  have 3: "first_digits U ?t = Some [48 + x, 48 + y, 48 + z, 48 + w]"
    using assms(1-4) by (simp add: first_digits_def is_digit_ascii)
  have 4: "?v = int_of U [48 + x, 48 + y, 48 + z, 48 + w]"
    using assms(1-4) by (simp add: int_of_4)
  have e: "?v = (10 * z + w) + (10 * x + y) * 100" by simp
  have f: "10 * z + w < 100" using assms(3,4) by simp
  have d: "?v div 100 = 10 * x + y" "?v mod 100 = 10 * z + w"
    by (subst e, rule split_100[OF f])+
  have v: "?v < 10000" using assms(1-4) by simp
  have l: "parse_salary U (Some ?t) =
      Some (of_nat (min (10 * x + y) (10 * z + w)) * 1000,
            of_nat (max (10 * x + y) (10 * z + w)) * 1000,
            of_nat (10 * x + y + (10 * z + w)) * 500)"
    using parse_salary_no_range[OF 1 2 3 4 assms(5)] v unfolding d by simp
  have da: "ascii_digits [48 + x, 48 + y]" and db: "ascii_digits [48 + z, 48 + w]"
    using assms(1-4) by (simp_all add: ascii_digits_def)
  have s: "10 * x + y \<le> 200" "10 * z + w \<le> 200"
    using assms(1-4) by simp_all
  have k: "to_k_unit (10 * x + y) (10 * z + w) = (of_nat (10 * x + y), of_nat (10 * z + w))"
    using s by (simp add: to_k_unit_def)
  have r: "parse_salary U (Some ([48 + x, 48 + y] @ asc ''-'' @ [48 + z, 48 + w] @ asc ''K'')) =
      safety_guard (of_nat (10 * x + y)) (of_nat (10 * z + w))"
    unfolding parse_salary_def option.case salary_bounds_hyphen[OF da db]
    using assms(1-4) by (simp add: int_of_2 k del: of_nat_add of_nat_mult)
  show ?thesis
    unfolding r safety_guard_small[OF s] using l by (simp add: asc_def)
qed

theorem fused_equals_hyphenated_witness:
  "parse_salary ascii_only (Some (asc ''2140K'')) = parse_salary ascii_only (Some (asc ''21-40K''))"
  using fused_equals_hyphenated[of 2 1 4 0 ascii_only] by (simp add: asc_def)

text \<open>
  The claim as stated fails on a run of four digits whose value is at most 200: \<open>0150K\<close> is
  read as the single value 150, while \<open>01-50K\<close> is the range from 1 to 50.
\<close>

theorem fused_equals_hyphenated_counterexample:
  "parse_salary ascii_only (Some (asc ''0150K'')) = Some (150000, 150000, 150000)
   \<and> parse_salary ascii_only (Some (asc ''01-50K'')) = Some (1000, 50000, 25500)"
  by (simp add: ev)

subsection \<open>The unit heuristic and the safety check\<close>

lemma match_range_at_hyphen:
  assumes "match_range_at U s = Some m"
  shows "45 \<in> set s"
proof -
  from assms obtain c r where d: "dropWhile is_space (dropWhile (is_digit U) s) = c # r"
    and c: "c = 45"
    by (auto simp: match_range_at_def Let_def split: if_splits list.splits)
  have "c \<in> set (dropWhile is_space (dropWhile (is_digit U) s))"
    by (simp add: d)
  then have "c \<in> set s"
    by (meson set_dropWhileD)
  with c show ?thesis by simp
qed

lemma search_range_hyphen: "search_range U s = Some m \<Longrightarrow> 45 \<in> set s"
proof (induction s)
  case Nil
  then show ?case by simp
next
  case (Cons c cs)
  show ?case
  proof (cases "match_range_at U (c # cs)")
    case None
    with Cons show ?thesis by simp
  next
    case (Some m')
    then show ?thesis by (rule match_range_at_hyphen)
  qed
qed

lemma salary_bounds_range:
  assumes "s = strip (upper_str U x)" and "search_range U s = Some (ga, gb)"
  shows "salary_bounds U x = Some (to_k_unit (int_of U ga) (int_of U gb))"
  using assms(2) search_range_hyphen[OF assms(2)]
  unfolding salary_bounds_def Let_def assms(1)[symmetric] by simp

lemma takeWhile_whole: "(\<And>c. c \<in> set d \<Longrightarrow> P c) \<Longrightarrow> takeWhile P d = d"
  by (simp add: takeWhile_eq_all_conv)

lemma search_range_plain_token:
  assumes "ascii_digits da" "ascii_digits db"
  shows "search_range U (da @ 45 # db) = Some (da, db)"
proof -
  have a: "takeWhile (is_digit U) (da @ 45 # db) = da"
    by (rule takeWhile_run) (simp_all add: ascii_digits_D[OF assms(1)])
  have b: "dropWhile (is_digit U) (da @ 45 # db) = 45 # db"
    by (rule dropWhile_run) (simp_all add: ascii_digits_D[OF assms(1)])
  obtain c cs where db: "db = c # cs"
    using ascii_digits_D(1)[OF assms(2)] by (cases db) auto
  have c: "dropWhile is_space db = db"
    using ascii_digits_D(4)[OF assms(2), of c] by (simp add: db)
  have d: "takeWhile (is_digit U) db = db"
    by (rule takeWhile_whole) (rule ascii_digits_D(3)[OF assms(2)])
  have m: "match_range_at U (da @ 45 # db) = Some (da, db)"
    using ascii_digits_D(1)[OF assms(1)] ascii_digits_D(1)[OF assms(2)]
    by (simp add: match_range_at_def a b c d)
  obtain e es where "da @ 45 # db = e # es"
    using ascii_digits_D(1)[OF assms(1)] by (cases da) auto
  with m show ?thesis
    by (metis search_range.simps(2) option.simps(5))
qed

lemma plain_token_stable:
  assumes "ascii_digits da" "ascii_digits db"
  shows "strip (upper_str U (da @ 45 # db)) = da @ 45 # db"
proof -
  let ?t = "da @ 45 # db"
  have u: "upper_str U ?t = ?t"
    by (simp add: upper_str_append upper_str_Cons upper_ascii_digits assms upper_char_def)
  obtain c cs where da: "da = c # cs"
    using ascii_digits_D(1)[OF assms(1)] by (cases da) auto
  have h: "\<not> is_space (hd ?t)"
    using ascii_digits_D(4)[OF assms(1), of c] by (simp add: da)
  have "last ?t = last db"
    using ascii_digits_D(1)[OF assms(2)] by simp
  moreover have "last db \<in> set db"
    using ascii_digits_D(1)[OF assms(2)] by simp
  ultimately have l: "\<not> is_space (last ?t)"
    using ascii_digits_D(4)[OF assms(2)] by simp
  have "strip ?t = ?t"
    using h l by (intro strip_id) simp_all
  with u show ?thesis by simp
qed

text \<open>
  Claim C4, as amended. Whenever the range pattern matches in the token (with or without a
  unit letter, with or without whitespace around the hyphen), with \<open>a\<close> and \<open>b\<close> the two
  integers it reads, both are divided by 1000 before the safety check exactly when the first
  integer \<open>a\<close> is above 1000; otherwise (in particular when both are at most 50, and also when
  one lies between 51 and 1000) they are taken as they stand. The second part says it for the
  tokens \<open><a>-<b>\<close> and \<open><a>-<b>K\<close> written with ASCII digits. The quotients are exact
  rationals here, where the source has the nearest floats.
\<close>

theorem hyphenated_unit_conversion:
  "(s = strip (upper_str U x) \<and> search_range U s = Some (ga, gb)
      \<longrightarrow> parse_salary U (Some x) =
           (if 1000 < int_of U ga
            then safety_guard (of_nat (int_of U ga) / 1000) (of_nat (int_of U gb) / 1000)
            else safety_guard (of_nat (int_of U ga)) (of_nat (int_of U gb))))
   \<and> (ascii_digits da \<and> ascii_digits db \<and> (k = [] \<or> k = asc ''K'')
      \<longrightarrow> parse_salary U (Some (da @ asc ''-'' @ db @ k)) =
           (if 1000 < int_of U da
            then safety_guard (of_nat (int_of U da) / 1000) (of_nat (int_of U db) / 1000)
            else safety_guard (of_nat (int_of U da)) (of_nat (int_of U db))))"
proof (intro conjI impI)
  assume h: "s = strip (upper_str U x) \<and> search_range U s = Some (ga, gb)"
  then have h1: "s = strip (upper_str U x)" and h2: "search_range U s = Some (ga, gb)"
    by (rule conjunct1, rule conjunct2)
  have "salary_bounds U x = Some (to_k_unit (int_of U ga) (int_of U gb))"
    by (rule salary_bounds_range[OF h1 h2])
  then show "parse_salary U (Some x) =
           (if 1000 < int_of U ga
            then safety_guard (of_nat (int_of U ga) / 1000) (of_nat (int_of U gb) / 1000)
            else safety_guard (of_nat (int_of U ga)) (of_nat (int_of U gb)))"
    by (simp add: parse_salary_def to_k_unit_def)
next
  assume h: "ascii_digits da \<and> ascii_digits db \<and> (k = [] \<or> k = asc ''K'')"
  then have da: "ascii_digits da" and db: "ascii_digits db" by simp_all
  have "salary_bounds U (da @ asc ''-'' @ db @ k) = Some (to_k_unit (int_of U da) (int_of U db))"
  proof (cases "k = []")
    case True
    have "salary_bounds U (da @ 45 # db) = Some (to_k_unit (int_of U da) (int_of U db))"
      by (rule salary_bounds_range[OF plain_token_stable[OF da db, symmetric]
            search_range_plain_token[OF da db]])
    then show ?thesis
      using True by (simp add: asc_def)
  next
    case False
    with h have "k = asc ''K''" by simp
    then show ?thesis
      using salary_bounds_hyphen[OF da db] by simp
  qed
  then show "parse_salary U (Some (da @ asc ''-'' @ db @ k)) =
           (if 1000 < int_of U da
            then safety_guard (of_nat (int_of U da) / 1000) (of_nat (int_of U db) / 1000)
            else safety_guard (of_nat (int_of U da)) (of_nat (int_of U db)))"
    by (simp add: parse_salary_def to_k_unit_def)
qed

theorem hyphenated_unit_conversion_witness:
  "parse_salary ascii_only (Some (asc '' 8000 - 12000 '')) = Some (8000, 12000, 10000)
   \<and> parse_salary ascii_only (Some (asc ''8000-12000'')) = Some (8000, 12000, 10000)
   \<and> parse_salary ascii_only (Some (asc ''60-80'')) = Some (60000, 80000, 70000)
   \<and> parse_salary ascii_only (Some (asc ''60-80K'')) = Some (60000, 80000, 70000)
   \<and> parse_salary ascii_only (Some (asc ''15000-25000K'')) = Some (15000, 25000, 20000)"
proof -
  have 1: "asc ''8000 - 12000'' = strip (upper_str ascii_only (asc '' 8000 - 12000 ''))
           \<and> search_range ascii_only (asc ''8000 - 12000'') = Some (asc ''8000'', asc ''12000'')"
    by (simp add: ev)
  have 2: "ascii_digits (asc ''8000'') \<and> ascii_digits (asc ''12000'') \<and> ([] = [] \<or> [] = asc ''K'')"
    "ascii_digits (asc ''60'') \<and> ascii_digits (asc ''80'') \<and> ([] = [] \<or> [] = asc ''K'')"
    "ascii_digits (asc ''60'') \<and> ascii_digits (asc ''80'')
       \<and> (asc ''K'' = [] \<or> asc ''K'' = asc ''K'')"
    "ascii_digits (asc ''15000'') \<and> ascii_digits (asc ''25000'')
       \<and> (asc ''K'' = [] \<or> asc ''K'' = asc ''K'')"
    by (simp_all add: ascii_digits_def asc_def)
  have 3: "int_of ascii_only (asc ''8000'') = 8000" "int_of ascii_only (asc ''12000'') = 12000"
    "int_of ascii_only (asc ''60'') = 60" "int_of ascii_only (asc ''80'') = 80"
    "int_of ascii_only (asc ''15000'') = 15000" "int_of ascii_only (asc ''25000'') = 25000"
    by (simp_all add: int_of_def digit_value_def asc_def)
  have a: "parse_salary ascii_only (Some (asc '' 8000 - 12000 '')) = Some (8000, 12000, 10000)"
    using hyphenated_unit_conversion[where U = ascii_only and x = "asc '' 8000 - 12000 ''"
        and s = "asc ''8000 - 12000''" and ga = "asc ''8000''" and gb = "asc ''12000''",
        THEN conjunct1, THEN mp, OF 1]
    by (simp add: 3 safety_guard_def)
  have b: "parse_salary ascii_only (Some (asc ''8000'' @ asc ''-'' @ asc ''12000'' @ [])) =
           Some (8000, 12000, 10000)"
    using hyphenated_unit_conversion[where U = ascii_only and da = "asc ''8000''"
        and db = "asc ''12000''" and k = "[]", THEN conjunct2, THEN mp, OF 2(1)]
    by (simp add: 3 safety_guard_def)
  have c: "parse_salary ascii_only (Some (asc ''60'' @ asc ''-'' @ asc ''80'' @ [])) =
           Some (60000, 80000, 70000)"
    using hyphenated_unit_conversion[where U = ascii_only and da = "asc ''60''"
        and db = "asc ''80''" and k = "[]", THEN conjunct2, THEN mp, OF 2(2)]
    by (simp add: 3 safety_guard_def)
  have d: "parse_salary ascii_only (Some (asc ''60'' @ asc ''-'' @ asc ''80'' @ asc ''K'')) =
           Some (60000, 80000, 70000)"
    using hyphenated_unit_conversion[where U = ascii_only and da = "asc ''60''"
        and db = "asc ''80''" and k = "asc ''K''", THEN conjunct2, THEN mp, OF 2(3)]
    by (simp add: 3 safety_guard_def)
  have e: "parse_salary ascii_only (Some (asc ''15000'' @ asc ''-'' @ asc ''25000'' @ asc ''K'')) =
           Some (15000, 25000, 20000)"
    using hyphenated_unit_conversion[where U = ascii_only and da = "asc ''15000''"
        and db = "asc ''25000''" and k = "asc ''K''", THEN conjunct2, THEN mp, OF 2(4)]
    by (simp add: 3 safety_guard_def)
  show ?thesis
    using a b c d e by (simp add: asc_def)
qed

text \<open>
  The claim as stated divides as soon as one integer exceeds 50: on \<open>60-80K\<close> (and on
  \<open>60-80\<close>) the parser does not divide (it returns 60000 and 80000), while the division would
  give 60 and 80.
\<close>

theorem hyphenated_unit_conversion_counterexample:
  "parse_salary ascii_only (Some (asc ''60-80K'')) = Some (60000, 80000, 70000)
   \<and> parse_salary ascii_only (Some (asc ''60-80'')) = Some (60000, 80000, 70000)
   \<and> safety_guard (60 / 1000) (80 / 1000) = Some (60, 80, 70)"
  by (simp add: ev)

text \<open>
  Claim C5. Whatever the input, when the low or the high bound that reaches the safety check
  (after the unit conversion or the split) is above 200 the parser returns the absent triple;
  bounds of at most 200, so also bounds equal to 200, pass the check; and no triple that the
  parser returns has a bound above 200 working units (200000 in currency units).
\<close>

theorem safety_guard_boundary:
  "(salary_bounds U x = Some (low, high) \<and> (200 < low \<or> 200 < high)
      \<longrightarrow> parse_salary U (Some x) = None)
   \<and> (salary_bounds U x' = Some (low', high') \<and> low' \<le> 200 \<and> high' \<le> 200
      \<longrightarrow> parse_salary U (Some x') \<noteq> None)
   \<and> (parse_salary U c = Some (lo, hi, avg)
      \<longrightarrow> lo \<le> hi \<and> hi \<le> 200 * 1000 \<and> avg = (lo + hi) / 2)"
  by (auto simp: parse_salary_def safety_guard_def split: option.splits if_splits)

theorem safety_guard_boundary_witness:
  "salary_bounds ascii_only (asc ''150-201K'') = Some (150, 201)
   \<and> parse_salary ascii_only (Some (asc ''150-201K'')) = None
   \<and> salary_bounds ascii_only (asc ''200K'') = Some (200, 200)
   \<and> parse_salary ascii_only (Some (asc ''200K'')) = Some (200000, 200000, 200000)"
proof -
  have 1: "salary_bounds ascii_only (asc ''150-201K'') = Some (150, 201)"
    by (simp add: ev)
  have 2: "salary_bounds ascii_only (asc ''200K'') = Some (200, 200)"
    by (simp add: ev)
  have 3: "parse_salary ascii_only (Some (asc ''200K'')) = Some (200000, 200000, 200000)"
    by (simp add: ev)
  show ?thesis
    using safety_guard_boundary[of ascii_only "asc ''150-201K''" 150 201 "asc ''200K''" 200 200
        "Some (asc ''200K'')" 200000 200000 200000] 1 2 3
    by simp
qed

subsection \<open>The salary cleaner of the spider\<close>

lemma match_range_k_at_digits_K:
  assumes "\<And>c. c \<in> set d \<Longrightarrow> is_digit U c"
  shows "match_range_k_at U (d @ [75]) = None"
proof -
  have a: "takeWhile (is_digit U) (d @ [75]) = d"
    by (rule takeWhile_run) (simp_all add: assms)
  have b: "dropWhile (is_digit U) (d @ [75]) = [75]"
    by (rule dropWhile_run) (simp_all add: assms)
  show ?thesis
    by (simp add: match_range_k_at_def a b)
qed

lemma search_range_k_digits_K:
  "(\<And>c. c \<in> set d \<Longrightarrow> is_digit U c) \<Longrightarrow> search_range_k U (d @ [75]) = None"
proof (induction d)
  case Nil
  then show ?case by (simp add: match_range_k_at_def)
next
  case (Cons c d)
  have "match_range_k_at U ((c # d) @ [75]) = None"
    by (rule match_range_k_at_digits_K) (rule Cons.prems)
  then show ?case
    using Cons by simp
qed

lemma match_fused_token:
  assumes "ascii_digits d"
  shows "match_fused U (d @ [75]) = Some d"
proof -
  have a: "takeWhile (is_digit U) (d @ [75]) = d"
    by (rule takeWhile_run) (simp_all add: ascii_digits_D[OF assms])
  have b: "dropWhile (is_digit U) (d @ [75]) = [75]"
    by (rule dropWhile_run) (simp_all add: ascii_digits_D[OF assms])
  show ?thesis
    using ascii_digits_D(1)[OF assms] by (simp add: match_fused_def a b)
qed

lemma filter_token:
  assumes "ascii_digits d"
  shows "upper_str U (filter (\<lambda>c. is_alnum U c \<or> c = 45 \<or> c = 46) (d @ [75])) = d @ [75]"
proof -
  have "is_alnum U c" if "c \<in> set d" for c
  proof -
    from ascii_digits_D(2)[OF assms that] have "48 \<le> c" "c \<le> 57" "c < 128" by simp_all
    then show ?thesis by (simp add: is_alnum_def)
  qed
  then have "filter (\<lambda>c. is_alnum U c \<or> c = 45 \<or> c = 46) (d @ [75]) = d @ [75]"
    by (simp add: is_alnum_def)
  moreover have "upper_str U (d @ [75]) = d @ [75]"
    by (simp add: upper_str_append upper_ascii_digits[OF assms]) (simp add: upper_str_def upper_char_def)
  ultimately show ?thesis by simp
qed

lemma clean_salary_token:
  assumes "ascii_digits d"
  shows "clean_salary U (Some (d @ [75])) =
         (case smart_split U d of
            Some t \<Rightarrow> Some t
          | None \<Rightarrow> if int_of U d \<le> 200 then Some (d @ [75]) else None)"
proof -
  have s: "search_range_k U (d @ [75]) = None"
    by (rule search_range_k_digits_K) (rule ascii_digits_D(3)[OF assms])
  show ?thesis
    unfolding clean_salary_def option.case Let_def filter_token[OF assms] s
      match_fused_token[OF assms]
    by simp
qed

text \<open>
  Claim C6, as amended. On a fused token (three or four ASCII digits with a value above 100,
  then \<open>K\<close>) the cleaner returns the split \<open>part1-part2K\<close> only when \<open>part1 < part2\<close>.
  A token whose parts fail this check is thrown away when its value is above 200; when its
  value is at most 200 it is kept unchanged, as a single salary (line 87).
\<close>

theorem clean_salary_fused:
  assumes "ascii_digits d" and "length d = 3 \<or> length d = 4" and "100 < int_of U d"
    and "part1 = take (length d - 2) d" and "part2 = drop (length d - 2) d"
  shows "clean_salary U (Some (d @ asc ''K'')) =
         (if int_of U part1 < int_of U part2 then Some (part1 @ asc ''-'' @ part2 @ asc ''K'')
          else if int_of U d \<le> 200 then Some (d @ asc ''K'')
          else None)"
proof -
  have k: "asc ''K'' = [75]" "asc ''-'' = [45]" by (simp_all add: asc_def)
  show ?thesis
    unfolding k clean_salary_token[OF assms(1)]
    using assms(2,3) by (auto simp: smart_split_def assms(4,5) Let_def)
qed

lemmas ev2 = ev match_range_k_at_def match_fused_def smart_split_def clean_salary_def ascii_digits_def

theorem clean_salary_fused_witness:
  "clean_salary ascii_only (Some (asc ''2040K'')) = Some (asc ''20-40K'')
   \<and> clean_salary ascii_only (Some (asc ''4020K'')) = None"
proof -
  have 1: "ascii_digits (asc ''2040'')" "ascii_digits (asc ''4020'')"
    by (simp_all add: ascii_digits_def asc_def)
  have 2: "length (asc ''2040'') = 3 \<or> length (asc ''2040'') = 4"
    "length (asc ''4020'') = 3 \<or> length (asc ''4020'') = 4"
    by (simp_all add: asc_def)
  have 3: "100 < int_of ascii_only (asc ''2040'')" "100 < int_of ascii_only (asc ''4020'')"
    by (simp_all add: asc_def int_of_def digit_value_def)
  have 4: "asc ''20'' = take (length (asc ''2040'') - 2) (asc ''2040'')"
    "asc ''40'' = take (length (asc ''4020'') - 2) (asc ''4020'')"
    by (simp_all add: asc_def)
  have 5: "asc ''40'' = drop (length (asc ''2040'') - 2) (asc ''2040'')"
    "asc ''20'' = drop (length (asc ''4020'') - 2) (asc ''4020'')"
    by (simp_all add: asc_def)
  show ?thesis
    using clean_salary_fused[OF 1(1) 2(1) 3(1) 4(1) 5(1)] clean_salary_fused[OF 1(2) 2(2) 3(2) 4(2) 5(2)]
    by (simp add: asc_def int_of_def digit_value_def)
qed

text \<open>
  The claim as stated throws away every fused token whose parts are not increasing: \<open>200K\<close>
  is above 100 and splits into 2 and 00, which are not increasing, and the cleaner returns
  \<open>200K\<close>.
\<close>

theorem clean_salary_fused_counterexample:
  "int_of ascii_only (asc ''200'') = 200
   \<and> int_of ascii_only (asc ''2'') = 2 \<and> int_of ascii_only (asc ''00'') = 0
   \<and> clean_salary ascii_only (Some (asc ''200K'')) = Some (asc ''200K'')"
  by (simp add: ev2)

subsection \<open>The location extractor\<close>

lemma contains_sublist: "contains sub s = sublist sub s"
  by (induction s) (simp_all add: sublist_Cons_right)

lemma sublist_strip: "sublist (strip s) s"
proof -
  have "suffix (dropWhile is_space s) s"
    by (rule suffix_dropWhile)
  moreover have "prefix (rev (dropWhile is_space (rev t))) t" for t :: ustr
    using suffix_dropWhile[of is_space "rev t"] by (simp add: suffix_to_prefix)
  ultimately show ?thesis
    unfolding strip_def by (meson prefix_imp_sublist suffix_imp_sublist sublist_order.order_trans)
qed

lemma split_on_first:
  "(case split_on sep s of [] \<Rightarrow> [] | p # ps \<Rightarrow> p) = takeWhile (\<lambda>c. c \<noteq> sep) s"
  by (induction s) (auto split: list.splits)

lemma dot_rule_silent:
  assumes "183 \<in> set line \<longrightarrow>
           (\<forall>city\<in>set target_cities. \<not> contains city (takeWhile (\<lambda>c. c \<noteq> 183) line))"
  shows "dot_rule line = None"
  using assms by (auto simp: dot_rule_def split_on_first list_ex_iff)

lemma no_city_skipped:
  assumes "\<forall>city\<in>set target_cities. \<not> contains city line"
  shows "check_line line = None"
proof -
  have "\<not> contains city (takeWhile (\<lambda>c. c \<noteq> 183) line)" if "city \<in> set target_cities" for city
  proof
    assume "contains city (takeWhile (\<lambda>c. c \<noteq> 183) line)"
    then have "sublist city line"
      unfolding contains_sublist
      by (meson prefix_imp_sublist sublist_order.order_trans takeWhile_is_prefix)
    with assms that show False by (simp add: contains_sublist)
  qed
  then have "dot_rule line = None"
    by (intro dot_rule_silent) simp
  moreover have "find (\<lambda>city. contains city line) target_cities = None"
    using assms by (simp add: find_None_iff)
  ultimately show ?thesis by (simp add: check_line_def)
qed

lemma city_has_no_keyword:
  "\<forall>city\<in>set target_cities. \<forall>kw\<in>set company_keywords. \<not> contains kw city"
  by (simp add: target_cities_def company_keywords_def)

lemma company_line_skipped:
  assumes "\<exists>kw\<in>set company_keywords. contains kw line"
    and "183 \<in> set line \<longrightarrow>
         (\<forall>city\<in>set target_cities. \<not> contains city (takeWhile (\<lambda>c. c \<noteq> 183) line))"
  shows "check_line line = None"
proof -
  have d: "dot_rule line = None"
    by (rule dot_rule_silent) (rule assms(2))
  have k: "list_ex (\<lambda>kw. contains kw line) company_keywords"
    using assms(1) by (simp add: list_ex_iff)
  show ?thesis
  proof (cases "find (\<lambda>city. contains city line) target_cities")
    case None
    then show ?thesis by (simp add: check_line_def d)
  next
    case (Some m)
    then have "m \<in> set target_cities"
      by (auto simp: find_Some_iff)
    with city_has_no_keyword assms(1) have "m \<noteq> line" by blast
    then show ?thesis by (simp add: check_line_def d Some k)
  qed
qed

lemma bare_city_returned: "\<forall>city\<in>set target_cities. check_line city = Some city"
  by (simp add: target_cities_def check_line_def dot_rule_def)

lemma city_nonempty: "\<forall>city\<in>set target_cities. city \<noteq> []"
  by (simp add: target_cities_def)

lemma scan_lines_skip:
  assumes "\<forall>l\<in>set ls. strip l = [] \<or> check_line (strip l) = None"
  shows "scan_lines (ls @ rest) = scan_lines rest"
  using assms by (induction ls) auto

text \<open>
  Claim C7, as amended. Lines are taken as the loop takes them, with the whitespace at their
  ends removed. Let a line of the block be a bare city name, and let every line below it
  either contain no city name, or contain a company keyword and have no city name in front of
  its first separator U+00B7. Then the extractor returns the bare city name. (The claim's
  block, with one company line below the bare city line, is the case of one such line.)
\<close>

theorem bare_city_above_company_line:
  assumes "split_on 10 text = upper_lines @ [bare] @ lower_lines"
    and "strip bare \<in> set target_cities"
    and "\<forall>l\<in>set lower_lines.
           (\<forall>city\<in>set target_cities. \<not> contains city (strip l))
           \<or> ((\<exists>kw\<in>set company_keywords. contains kw (strip l))
              \<and> (183 \<in> set (strip l) \<longrightarrow>
                   (\<forall>city\<in>set target_cities.
                      \<not> contains city (takeWhile (\<lambda>c. c \<noteq> 183) (strip l)))))"
  shows "extract_city_smart (Some text) = strip bare"
proof -
  have "check_line (strip l) = None" if "l \<in> set lower_lines" for l
    using assms(3) that no_city_skipped company_line_skipped by blast
  then have "\<forall>l\<in>set (rev lower_lines). strip l = [] \<or> check_line (strip l) = None"
    by simp
  then have "scan_lines (rev lower_lines @ bare # rev upper_lines) = scan_lines (bare # rev upper_lines)"
    by (rule scan_lines_skip)
  moreover have "scan_lines (bare # rev upper_lines) = strip bare"
    using assms(2) bare_city_returned city_nonempty by auto
  ultimately show ?thesis
    by (simp add: extract_city_smart_def assms(1))
qed

lemmas evc = strip_def is_space_def target_cities_def company_keywords_def dot_rule_def check_line_def
  extract_city_smart_def unknown_city_def Let_def

theorem bare_city_above_company_line_witness:
  "extract_city_smart (Some ([21335, 20140] @ [10] @ [21335, 20140, 31185, 25216, 20844, 21496]))
     = [21335, 20140]"
proof -
  let ?bare = "[21335, 20140] :: ustr"
  let ?comp = "[21335, 20140, 31185, 25216, 20844, 21496] :: ustr"
  have 1: "split_on 10 (?bare @ [10] @ ?comp) = [] @ [?bare] @ [?comp]"
    by simp
  have s: "strip ?bare = ?bare" "strip ?comp = ?comp"
    by (simp_all add: strip_def is_space_def)
  have 2: "strip ?bare \<in> set target_cities"
    unfolding s by (simp add: target_cities_def)
  have 3: "\<forall>l\<in>set [?comp].
           (\<forall>city\<in>set target_cities. \<not> contains city (strip l))
           \<or> ((\<exists>kw\<in>set company_keywords. contains kw (strip l))
              \<and> (183 \<in> set (strip l) \<longrightarrow>
                   (\<forall>city\<in>set target_cities.
                      \<not> contains city (takeWhile (\<lambda>c. c \<noteq> 183) (strip l)))))"
    by (simp add: s company_keywords_def)
  show ?thesis
    using bare_city_above_company_line[OF 1 2 3] by (simp add: s)
qed

text \<open>
  The claim as stated fails when the company line has the separator after the city name: the
  dot rule comes first and returns the text in front of the separator. Here the block is the
  line Nanjing above the line "Nanjing technology company" U+00B7 "Jiangning district", and
  the result is "Nanjing technology company".
\<close>

theorem bare_city_above_company_line_counterexample:
  "extract_city_smart
     (Some ([21335, 20140] @ [10] @ [21335, 20140, 31185, 25216, 20844, 21496, 183, 27743, 23425, 21306]))
   = [21335, 20140, 31185, 25216, 20844, 21496]"
  by (simp add: evc)

subsection \<open>The degree code\<close>

lemmas evd = parse_exp_degree_def parse_degree_def no_degree_phrase_def kw_degree_unlimited_def
  kw_degree_requirement_def kw_unlimited_def kw_doctorate_def kw_master_def kw_bachelor_def
  kw_associate_def

text \<open>
  Claim C8, as amended. The condition that gives code 0 first is the one of line 176: the text
  contains "degree not limited", or it contains "degree requirement" somewhere and "not
  limited" somewhere (the two need not be adjacent, and "not limited" may be about something
  else, such as the experience). Under this condition the code is 0 whatever degree keywords
  the text contains. Otherwise the first keyword found in the order doctorate, master,
  bachelor, associate gives the code 4, 3, 2 or 1, so a text with the doctorate and the
  bachelor keyword, outside the condition, has code 4; with no keyword, and for a cell that
  is not a string, the code is 0. The code is never above 4.
\<close>

theorem degree_priority_chain:
  "(contains kw_degree_unlimited t0
      \<or> (contains kw_degree_requirement t0 \<and> contains kw_unlimited t0)
      \<longrightarrow> snd (parse_exp_degree U (Some t0)) = 0)
   \<and> (\<not> contains kw_degree_unlimited t4
      \<and> \<not> (contains kw_degree_requirement t4 \<and> contains kw_unlimited t4)
      \<and> contains kw_doctorate t4
      \<longrightarrow> snd (parse_exp_degree U (Some t4)) = 4)
   \<and> (\<not> contains kw_degree_unlimited t3
      \<and> \<not> (contains kw_degree_requirement t3 \<and> contains kw_unlimited t3)
      \<and> \<not> contains kw_doctorate t3 \<and> contains kw_master t3
      \<longrightarrow> snd (parse_exp_degree U (Some t3)) = 3)
   \<and> (\<not> contains kw_degree_unlimited t2
      \<and> \<not> (contains kw_degree_requirement t2 \<and> contains kw_unlimited t2)
      \<and> \<not> contains kw_doctorate t2 \<and> \<not> contains kw_master t2 \<and> contains kw_bachelor t2
      \<longrightarrow> snd (parse_exp_degree U (Some t2)) = 2)
   \<and> (\<not> contains kw_degree_unlimited t1
      \<and> \<not> (contains kw_degree_requirement t1 \<and> contains kw_unlimited t1)
      \<and> \<not> contains kw_doctorate t1 \<and> \<not> contains kw_master t1 \<and> \<not> contains kw_bachelor t1
      \<and> contains kw_associate t1
      \<longrightarrow> snd (parse_exp_degree U (Some t1)) = 1)
   \<and> (\<not> contains kw_degree_unlimited t
      \<and> \<not> (contains kw_degree_requirement t \<and> contains kw_unlimited t)
      \<and> \<not> contains kw_doctorate t \<and> \<not> contains kw_master t \<and> \<not> contains kw_bachelor t
      \<and> \<not> contains kw_associate t
      \<longrightarrow> snd (parse_exp_degree U (Some t)) = 0)
   \<and> snd (parse_exp_degree U None) = 0
   \<and> snd (parse_exp_degree U cell) \<le> 4"
proof -
  have "snd (parse_exp_degree U cell) \<le> 4"
    by (cases cell) (simp_all add: parse_exp_degree_def parse_degree_def)
  then show ?thesis
    by (simp add: parse_exp_degree_def parse_degree_def no_degree_phrase_def)
qed

theorem degree_priority_chain_witness:
  "snd (parse_exp_degree ascii_only (Some ([23398, 21382, 19981, 38480] @ [26412, 31185]))) = 0
   \<and> snd (parse_exp_degree ascii_only
        (Some [23398, 21382, 35201, 27714, 65306, 19981, 38480, 65292, 26412, 31185])) = 0
   \<and> snd (parse_exp_degree ascii_only (Some ([26412, 31185] @ [21338, 22763]))) = 4
   \<and> snd (parse_exp_degree ascii_only (Some ([26412, 31185] @ [30805, 22763]))) = 3
   \<and> snd (parse_exp_degree ascii_only (Some ([22823, 19987] @ [26412, 31185]))) = 2
   \<and> snd (parse_exp_degree ascii_only (Some [22823, 19987])) = 1
   \<and> snd (parse_exp_degree ascii_only (Some (asc ''Python''))) = 0"
proof -
  let ?ta = "[23398, 21382, 19981, 38480] @ [26412, 31185] :: ustr"
  let ?tg = "[23398, 21382, 35201, 27714, 65306, 19981, 38480, 65292, 26412, 31185] :: ustr"
  let ?tb = "[26412, 31185] @ [21338, 22763] :: ustr"
  let ?tc = "[26412, 31185] @ [30805, 22763] :: ustr"
  let ?td = "[22823, 19987] @ [26412, 31185] :: ustr"
  let ?te = "[22823, 19987] :: ustr"
  let ?tf = "asc ''Python''"
  have 0: "contains kw_degree_unlimited ?ta
      \<or> (contains kw_degree_requirement ?ta \<and> contains kw_unlimited ?ta)"
    "contains kw_degree_unlimited ?tg
      \<or> (contains kw_degree_requirement ?tg \<and> contains kw_unlimited ?tg)"
    by (simp_all add: evd)
  have 4: "\<not> contains kw_degree_unlimited ?tb
      \<and> \<not> (contains kw_degree_requirement ?tb \<and> contains kw_unlimited ?tb)
      \<and> contains kw_doctorate ?tb"
    by (simp add: evd)
  have 3: "\<not> contains kw_degree_unlimited ?tc
      \<and> \<not> (contains kw_degree_requirement ?tc \<and> contains kw_unlimited ?tc)
      \<and> \<not> contains kw_doctorate ?tc \<and> contains kw_master ?tc"
    by (simp add: evd)
  have 2: "\<not> contains kw_degree_unlimited ?td
      \<and> \<not> (contains kw_degree_requirement ?td \<and> contains kw_unlimited ?td)
      \<and> \<not> contains kw_doctorate ?td \<and> \<not> contains kw_master ?td \<and> contains kw_bachelor ?td"
    by (simp add: evd)
  have 1: "\<not> contains kw_degree_unlimited ?te
      \<and> \<not> (contains kw_degree_requirement ?te \<and> contains kw_unlimited ?te)
      \<and> \<not> contains kw_doctorate ?te \<and> \<not> contains kw_master ?te \<and> \<not> contains kw_bachelor ?te
      \<and> contains kw_associate ?te"
    by (simp add: evd)
  have 5: "\<not> contains kw_degree_unlimited ?tf
      \<and> \<not> (contains kw_degree_requirement ?tf \<and> contains kw_unlimited ?tf)
      \<and> \<not> contains kw_doctorate ?tf \<and> \<not> contains kw_master ?tf \<and> \<not> contains kw_bachelor ?tf
      \<and> \<not> contains kw_associate ?tf"
    by (simp add: evd asc_def)
  note chain = degree_priority_chain[where U = ascii_only and ?t4.0 = ?tb and ?t3.0 = ?tc
      and ?t2.0 = ?td and ?t1.0 = ?te and t = ?tf]
  have a: "snd (parse_exp_degree ascii_only (Some ?ta)) = 0"
    using chain[where ?t0.0 = ?ta and cell = None] 0(1) by blast
  have g: "snd (parse_exp_degree ascii_only (Some ?tg)) = 0"
    using chain[where ?t0.0 = ?tg and cell = None] 0(2) by blast
  show ?thesis
    using chain[where ?t0.0 = ?ta and cell = None] a g 4 3 2 1 5 by blast
qed

text \<open>
  The claim as stated gives code 4 to a text with the doctorate and the bachelor keyword
  unless it has a no-degree-requirement phrase. The text "degree requirement: doctorate
  bachelor, experience not limited" has both keywords and does not say that the degree is not
  limited, and its code is 0.
\<close>

theorem degree_priority_chain_counterexample:
  "contains kw_doctorate
     [23398, 21382, 35201, 27714, 65306, 21338, 22763, 26412, 31185, 65292, 32463, 39564,
      19981, 38480]
   \<and> contains kw_bachelor
     [23398, 21382, 35201, 27714, 65306, 21338, 22763, 26412, 31185, 65292, 32463, 39564,
      19981, 38480]
   \<and> \<not> contains kw_degree_unlimited
     [23398, 21382, 35201, 27714, 65306, 21338, 22763, 26412, 31185, 65292, 32463, 39564,
      19981, 38480]
   \<and> snd (parse_exp_degree ascii_only
       (Some [23398, 21382, 35201, 27714, 65306, 21338, 22763, 26412, 31185, 65292, 32463,
              39564, 19981, 38480])) = 0"
  by (simp add: evd)

text \<open>
  Claim C10. A text that contains "degree requirement" somewhere and "not limited" somewhere
  has degree code 0, whatever degree keywords it contains. The witness is the text "degree
  requirement: bachelor, experience not limited".
\<close>

theorem degree_requirement_unlimited:
  assumes "contains kw_degree_requirement t" and "contains kw_unlimited t"
  shows "snd (parse_exp_degree U (Some t)) = 0"
  using assms by (simp add: parse_exp_degree_def parse_degree_def no_degree_phrase_def)

theorem degree_requirement_unlimited_witness:
  "contains kw_bachelor
     ([23398, 21382, 35201, 27714, 65306, 26412, 31185, 65292, 32463, 39564, 19981, 38480])
   \<and> snd (parse_exp_degree ascii_only
       (Some [23398, 21382, 35201, 27714, 65306, 26412, 31185, 65292, 32463, 39564, 19981, 38480]))
     = 0"
proof -
  let ?tf = "[23398, 21382, 35201, 27714, 65306, 26412, 31185, 65292, 32463, 39564, 19981, 38480] :: ustr"
  have 1: "contains kw_degree_requirement ?tf" and 2: "contains kw_unlimited ?tf"
    and 3: "contains kw_bachelor ?tf"
    by (simp_all add: evd)
  show ?thesis
    using degree_requirement_unlimited[OF 1 2, of ascii_only] 3 by simp
qed

subsection \<open>The plausibility band\<close>

lemma clean_data_band:
  assumes "clean_data U df = Inr out" and "r \<in> set out"
  shows "2000 < avg_salary r \<and> avg_salary r < 50000"
  using assms by (auto simp: clean_data_def Let_def split: if_splits)

lemma feature_engineering_avg:
  assumes "r \<in> set (feature_engineering U df)"
  shows "\<exists>r'\<in>set df. avg_salary r = avg_salary r'"
  using assms by (auto simp: feature_engineering_def Let_def)

lemma run_band:
  assumes "run U df = Inr out" and "r \<in> set out"
  shows "2000 < avg_salary r \<and> avg_salary r < 50000"
proof -
  from assms(1) obtain cleaned where c: "clean_data U df = Inr cleaned"
    and o: "out = feature_engineering U cleaned"
    by (auto simp: run_def split: sum.splits)
  from feature_engineering_avg[of r U cleaned] assms(2) o
  obtain r' where "r' \<in> set cleaned" "avg_salary r = avg_salary r'" by auto
  with clean_data_band[OF c] show ?thesis by simp
qed

lemma load_and_preprocess_upper:
  assumes "load_and_preprocess tbl = Inr kept" and "r \<in> set kept"
  shows "avg_salary r < 50000"
  using assms by (auto simp: load_and_preprocess_def Let_def split: if_splits)

text \<open>
  Claim C9, as amended. Every row of the table that \<open>run\<close> writes has an average salary
  strictly between 2000 and 50000, so an average of 60000 never appears in it. The training
  stage checks again, but only the upper bound: every row it keeps has an average salary
  below 50000. On the table that \<open>run\<close> wrote, the rows it keeps are therefore inside the
  band.
\<close>

theorem plausibility_band:
  "(run U df = Inr out \<longrightarrow>
      (\<forall>r\<in>set out. 2000 < avg_salary r \<and> avg_salary r < 50000 \<and> avg_salary r \<noteq> 60000))
   \<and> (load_and_preprocess tbl = Inr kept \<longrightarrow>
      (\<forall>r\<in>set kept. avg_salary r < 50000 \<and> avg_salary r \<noteq> 60000))
   \<and> (run U df' = Inr out' \<and> load_and_preprocess out' = Inr kept' \<longrightarrow>
      (\<forall>r\<in>set kept'. 2000 < avg_salary r \<and> avg_salary r < 50000))"
proof -
  have "set kept' \<subseteq> set out'" if "load_and_preprocess out' = Inr kept'"
    using that by (auto simp: load_and_preprocess_def Let_def split: if_splits)
  then show ?thesis
    using run_band[of U df out] run_band[of U df' out'] load_and_preprocess_upper[of tbl kept]
    by fastforce
qed

lemmas evp = ev clean_data_def run_def feature_engineering_def load_and_preprocess_def job_def
  trained_def List.map_filter_def

lemma run_example:
  "map avg_salary (projr (run ascii_only [job (asc ''15-25K''), job (asc ''50-70K''), job (asc ''1-2K'')])) = [20000]"
   "isl (run ascii_only [job (asc ''15-25K''), job (asc ''50-70K''), job (asc ''1-2K'')]) = False"
   "parse_salary ascii_only (Some (asc ''50-70K'')) = Some (50000, 70000, 60000)"
  by (simp_all add: evp)

theorem plausibility_band_witness:
  "parse_salary ascii_only (Some (asc ''50-70K'')) = Some (50000, 70000, 60000)
   \<and> map avg_salary
        (projr (run ascii_only [job (asc ''15-25K''), job (asc ''50-70K''), job (asc ''1-2K'')]))
       = [20000]
   \<and> load_and_preprocess (trained 60000 # replicate 10 (trained 20000))
       = Inr (replicate 10 (trained 20000))
   \<and> avg_salary (trained 20000) < 50000"
proof -
  let ?df = "[job (asc ''15-25K''), job (asc ''50-70K''), job (asc ''1-2K'')]"
  let ?out = "projr (run ascii_only ?df)"
  let ?tbl = "trained 60000 # replicate 10 (trained 20000)"
  let ?kept = "replicate 10 (trained 20000)"
  have 1: "run ascii_only ?df = Inr ?out"
    using run_example(2) by simp
  have 2: "load_and_preprocess ?tbl = Inr ?kept"
    by (simp add: load_and_preprocess_def trained_def)
  have 3: "trained 20000 \<in> set ?kept"
    by simp
  from plausibility_band[of ascii_only ?df ?out ?tbl ?kept] 1 2 3
  have "avg_salary (trained 20000) < 50000"
    by blast
  then show ?thesis
    using run_example(1,3) 2 by simp
qed

text \<open>
  The claim as stated has the training stage exclude the rows outside the band: a table of
  ten rows with average salary 1500 (and a degree) passes its filter unchanged.
\<close>

theorem plausibility_band_counterexample:
  "load_and_preprocess (replicate 10 (trained 1500)) = Inr (replicate 10 (trained 1500))
   \<and> avg_salary (trained 1500) = 1500"
  by (simp add: load_and_preprocess_def trained_def)

end
